theory Spec2Isabelle
  imports Complex_Main
begin

section \<open>Strings as Python handles them\<close>

text \<open>
  Python strings are modelled as \<^typ>\<open>string\<close>. The place names and codes of the
  dataset and of every example are ASCII, and \<open>str.lower\<close> / \<open>str.upper\<close> are
  modelled on the ASCII letters; every other character is left as it is.
\<close>

definition lower_char :: "char \<Rightarrow> char" where
  "lower_char c =
     (case map_of (zip ''ABCDEFGHIJKLMNOPQRSTUVWXYZ'' ''abcdefghijklmnopqrstuvwxyz'') c of
        Some l \<Rightarrow> l | None \<Rightarrow> c)"

definition upper_char :: "char \<Rightarrow> char" where
  "upper_char c =
     (case map_of (zip ''abcdefghijklmnopqrstuvwxyz'' ''ABCDEFGHIJKLMNOPQRSTUVWXYZ'') c of
        Some u \<Rightarrow> u | None \<Rightarrow> c)"

definition lower :: "string \<Rightarrow> string" where
  "lower s = map lower_char s"

definition upper :: "string \<Rightarrow> string" where
  "upper s = map upper_char s"

text \<open>\<open>starts_with p s\<close>: \<open>s\<close> begins with \<open>p\<close>.\<close>

fun starts_with :: "string \<Rightarrow> string \<Rightarrow> bool" where
  "starts_with [] s = True"
| "starts_with (p # ps) [] = False"
| "starts_with (p # ps) (c # cs) = (p = c \<and> starts_with ps cs)"

text \<open>Python's \<open>needle in hay\<close> on strings: \<open>needle\<close> occurs in \<open>hay\<close> as a
  contiguous substring.\<close>

fun str_in :: "string \<Rightarrow> string \<Rightarrow> bool" where
  "str_in needle [] = (needle = [])"
| "str_in needle (c # cs) = (starts_with needle (c # cs) \<or> str_in needle cs)"


section \<open>The dataset: \<open>app/models.py\<close>\<close>

text \<open>A centroid is the JSON object \<open>{"lat": .., "lon": ..}\<close>.\<close>

type_synonym centroid = "(string \<times> real) list"

record region =
  r_name :: string
  r_code :: string
  r_population :: "int option"

record district =
  d_name :: string
  d_code :: string
  d_region_name :: string
  d_population :: "int option"
  d_aliases :: "string list option"
  d_centroid :: "centroid option"

record place_search_result =
  psr_id :: string
  psr_name :: string
  psr_region :: string
  psr_type :: string
  psr_aliases :: "string list option"
  psr_centroid :: "centroid option"
  psr_population :: "int option"

record places_search_response =
  data :: "place_search_result list"
  count :: nat

text \<open>The two tables the search reads, in the order the storage returns their rows.\<close>

record db =
  districts :: "district list"
  regions :: "region list"


section \<open>Place search: \<open>search_places\<close> in \<open>endpoints/places.py\<close>\<close>

text \<open>
  The district query: rows whose lower-cased name or region name contains the
  lower-cased search text, at most \<open>limit * 2\<close> of them, in the order of the table.
  \<open>contains\<close> is read as the substring test (the characters \<open>%\<close> and \<open>_\<close>, which
  the generated \<open>LIKE\<close> pattern would read as wildcards, are taken literally). What a
  negative row count does is up to the storage engine; the model fetches no row then
  (\<open>nat\<close> of a negative number is 0).
\<close>

definition select_districts :: "district list \<Rightarrow> string \<Rightarrow> int \<Rightarrow> district list" where
  "select_districts tbl name_lower n =
     take (nat n)
       (filter (\<lambda>d. str_in name_lower (lower (d_name d)) \<or>
                     str_in name_lower (lower (d_region_name d))) tbl)"

text \<open>The region query: rows whose lower-cased name contains the search text.\<close>

definition select_regions :: "region list \<Rightarrow> string \<Rightarrow> int \<Rightarrow> region list" where
  "select_regions tbl name_lower n =
     take (nat n) (filter (\<lambda>r. str_in name_lower (lower (r_name r))) tbl)"

text \<open>\<open>district.code or f"SOM-{district.region_name[:3].upper()}-{district.name[:3].upper()}"\<close>\<close>

definition district_id :: "district \<Rightarrow> string" where
  "district_id d =
     (if d_code d \<noteq> [] then d_code d
      else ''SOM-'' @ upper (take 3 (d_region_name d)) @ ''-'' @ upper (take 3 (d_name d)))"

definition district_result :: "district \<Rightarrow> place_search_result" where
  "district_result d =
     \<lparr>psr_id = district_id d, psr_name = d_name d, psr_region = d_region_name d,
      psr_type = ''district'', psr_aliases = d_aliases d, psr_centroid = d_centroid d,
      psr_population = d_population d\<rparr>"

definition region_result :: "region \<Rightarrow> place_search_result" where
  "region_result r =
     \<lparr>psr_id = r_code r, psr_name = r_name r, psr_region = r_name r,
      psr_type = ''region'', psr_aliases = None, psr_centroid = None,
      psr_population = r_population r\<rparr>"

text \<open>The test of the loop body: name, region name, and only then the aliases.\<close>

definition district_matches :: "string \<Rightarrow> district \<Rightarrow> bool" where
  "district_matches name_lower d =
     (let matches = (str_in name_lower (lower (d_name d)) \<or>
                     str_in name_lower (lower (d_region_name d)));
          aliases = (case d_aliases d of None \<Rightarrow> [] | Some as \<Rightarrow> as)
      in if \<not> matches then list_ex (\<lambda>alias. str_in name_lower (lower alias)) aliases
         else matches)"

text \<open>
  The loop over the fetched districts. The state is \<open>(results, seen_ids)\<close>; the
  \<open>break\<close> is the branch that returns without scanning the rest.
\<close>

fun scan_districts ::
  "string \<Rightarrow> int \<Rightarrow> district list \<Rightarrow> place_search_result list \<times> string set \<Rightarrow>
   place_search_result list \<times> string set" where
  "scan_districts name_lower limit [] (results, seen_ids) = (results, seen_ids)"
| "scan_districts name_lower limit (d # ds) (results, seen_ids) =
     (if district_matches name_lower d then
        (if district_id d \<notin> seen_ids then
           (let results' = results @ [district_result d];
                seen_ids' = insert (district_id d) seen_ids
            in if int (length results') \<ge> limit then (results', seen_ids')
               else scan_districts name_lower limit ds (results', seen_ids'))
         else scan_districts name_lower limit ds (results, seen_ids))
      else scan_districts name_lower limit ds (results, seen_ids))"

text \<open>The loop over the fetched regions.\<close>

fun scan_regions ::
  "region list \<Rightarrow> place_search_result list \<times> string set \<Rightarrow>
   place_search_result list \<times> string set" where
  "scan_regions [] (results, seen_ids) = (results, seen_ids)"
| "scan_regions (r # rs) (results, seen_ids) =
     (if r_code r \<notin> seen_ids then
        scan_regions rs (results @ [region_result r], insert (r_code r) seen_ids)
      else scan_regions rs (results, seen_ids))"

definition search_places :: "db \<Rightarrow> string \<Rightarrow> int \<Rightarrow> places_search_response" where
  "search_places store name limit =
     (let name_lower = lower name;
          found = scan_districts name_lower limit
                    (select_districts (districts store) name_lower (limit * 2)) ([], {});
          final =
            (if int (length (fst found)) < limit then
               scan_regions
                 (select_regions (regions store) name_lower (limit - int (length (fst found))))
                 found
             else found)
      in \<lparr>data = fst final, count = length (fst final)\<rparr>)"

text \<open>
  The candidates in scan order, for stating which of two candidates with one id is
  kept: the fetched districts that pass the loop's test, then the fetched regions.
\<close>

definition district_candidates :: "string \<Rightarrow> district list \<Rightarrow> place_search_result list" where
  "district_candidates q ds = map district_result (filter (district_matches q) ds)"

definition scan_order :: "db \<Rightarrow> string \<Rightarrow> int \<Rightarrow> place_search_result list" where
  "scan_order store name limit =
     (let nl = lower name;
          ds = select_districts (districts store) nl (limit * 2);
          found = fst (scan_districts nl limit ds ([], {}));
          rs = select_regions (regions store) nl (limit - int (length found))
      in district_candidates nl ds @ map region_result rs)"


section \<open>Location codes: \<open>app/utils/olc_helper.py\<close>\<close>

text \<open>
  Python floats are modelled as \<^typ>\<open>real\<close>. The helper raises nothing itself: an
  exception is one the Open Location Code library raised, passed on unchanged. The
  two kinds of error are those of the specification.
\<close>

datatype error = InvalidArgument | InvalidCode

text \<open>The library's \<open>CodeArea\<close>, the value \<open>olc.decode\<close> returns.\<close>

record code_area =
  latitudeLo :: real
  longitudeLo :: real
  latitudeHi :: real
  longitudeHi :: real
  latitudeCenter :: real
  longitudeCenter :: real
  codeLength :: nat

text \<open>
  The module \<open>openlocationcode\<close> that the helper imports as \<open>olc\<close> is a third-party
  library; the helper's functions take it as a parameter. The third argument of
  \<open>encode\<close> is the code length, \<open>None\<close> when the call leaves it to the library's
  default.
\<close>

record olc =
  encode :: "real \<Rightarrow> real \<Rightarrow> int option \<Rightarrow> error + string"
  decode :: "string \<Rightarrow> error + code_area"

definition generate_olc :: "olc \<Rightarrow> real \<Rightarrow> real \<Rightarrow> int option \<Rightarrow> error + string" where
  "generate_olc lib lat lon code_length =
     (case code_length of
        Some n \<Rightarrow> if n \<noteq> 0 then encode lib lat lon (Some n) else encode lib lat lon None
      | None \<Rightarrow> encode lib lat lon None)"

text \<open>The dictionary \<open>decode_olc\<close> returns; \<open>region_code\<close> is \<open>None\<close> when the key is absent.\<close>

record decoded =
  code :: string
  latitude_center :: real
  longitude_center :: real
  latitude_lo :: real
  longitude_lo :: real
  latitude_hi :: real
  longitude_hi :: real
  code_length :: nat
  region_code :: "string option"

definition decode_olc :: "olc \<Rightarrow> string \<Rightarrow> error + decoded" where
  "decode_olc lib c =
     (case decode lib c of
        Inl e \<Rightarrow> Inl e
      | Inr area \<Rightarrow>
          Inr \<lparr>code = c,
               latitude_center = latitudeCenter area, longitude_center = longitudeCenter area,
               latitude_lo = latitudeLo area, longitude_lo = longitudeLo area,
               latitude_hi = latitudeHi area, longitude_hi = longitudeHi area,
               code_length = codeLength area, region_code = None\<rparr>)"

text \<open>The bounding boxes of \<open>_get_region_from_coords\<close>, in the order the dictionary lists them.\<close>

record bounds =
  lat_min :: real
  lat_max :: real
  lon_min :: real
  lon_max :: real

definition region_boxes :: "(string \<times> bounds) list" where
  "region_boxes =
     [(''BNR'', \<lparr>lat_min = 1.8, lat_max = 2.2, lon_min = 45.0, lon_max = 45.6\<rparr>),
      (''HRS'', \<lparr>lat_min = 9.0, lat_max = 10.0, lon_min = 43.0, lon_max = 45.0\<rparr>),
      (''SHB'', \<lparr>lat_min = 2.0, lat_max = 3.0, lon_min = 42.0, lon_max = 43.0\<rparr>)]"

text \<open>
  \<open>_get_region_from_coords\<close>: the loop \<open>for code, bounds in regions.items()\<close>, which
  returns at the first box that holds the point, and \<open>None\<close> after the last.
\<close>

fun first_box :: "(string \<times> bounds) list \<Rightarrow> real \<Rightarrow> real \<Rightarrow> string option" where
  "first_box [] lat lon = None"
| "first_box ((key, b) # rest) lat lon =
     (if lat_min b \<le> lat \<and> lat \<le> lat_max b \<and> lon_min b \<le> lon \<and> lon \<le> lon_max b
      then Some key
      else first_box rest lat lon)"

definition get_region_from_coords :: "real \<Rightarrow> real \<Rightarrow> string option" where
  "get_region_from_coords lat lon = first_box region_boxes lat lon"

text \<open>Python's truth value of an \<open>Optional[str]\<close>: \<open>None\<close> and the empty string are false.\<close>

definition truthy :: "string option \<Rightarrow> bool" where
  "truthy s = (case s of None \<Rightarrow> False | Some t \<Rightarrow> t \<noteq> [])"

definition generate_somalia_olc :: "olc \<Rightarrow> real \<Rightarrow> real \<Rightarrow> string option \<Rightarrow> error + string" where
  "generate_somalia_olc lib lat lon rc =
     (case generate_olc lib lat lon None of
        Inl e \<Rightarrow> Inl e
      | Inr base_code \<Rightarrow>
          (if truthy rc then Inr (the rc @ '':'' @ base_code)
           else
             (let region = get_region_from_coords lat lon
              in if truthy region then Inr (''SOM-'' @ the region @ '':'' @ base_code)
                 else Inr base_code)))"

text \<open>\<open>code.split(":", 1)\<close> for a string that holds a colon: the text before the first
  colon and the text after it.\<close>

definition split_colon :: "string \<Rightarrow> string \<times> string" where
  "split_colon c =
     (takeWhile (\<lambda>x. x \<noteq> CHR '':'') c, tl (dropWhile (\<lambda>x. x \<noteq> CHR '':'') c))"

definition decode_somalia_olc :: "olc \<Rightarrow> string \<Rightarrow> error + decoded" where
  "decode_somalia_olc lib c =
     (if CHR '':'' \<in> set c then
        (let (region_part, olc_part) = split_colon c
         in case decode_olc lib olc_part of
              Inl e \<Rightarrow> Inl e
            | Inr result \<Rightarrow> Inr (result\<lparr>region_code := Some region_part\<rparr>))
      else decode_olc lib c)"


section \<open>The endpoint: \<open>generate_location_code\<close> in \<open>endpoints/location_codes.py\<close>\<close>

text \<open>
  The query parameters are declared with bounds, \<open>Query(..., ge=-90, le=90)\<close> for
  \<open>lat\<close> and \<open>Query(..., ge=-180, le=180)\<close> for \<open>lon\<close>; the framework checks them
  before the body runs and answers a violation with a validation error. In the body
  every exception becomes an \<open>HTTPException\<close> with status 400.
\<close>

datatype http_error = RequestValidationError | HTTPException_400

record location_code_response =
  lcr_code :: string
  lcr_latitude_center :: real
  lcr_longitude_center :: real
  lcr_region_code :: "string option"

definition generate_location_code :: "olc \<Rightarrow> real \<Rightarrow> real \<Rightarrow> http_error + location_code_response" where
  "generate_location_code lib lat lon =
     (if \<not> (- 90 \<le> lat \<and> lat \<le> 90) \<or> \<not> (- 180 \<le> lon \<and> lon \<le> 180)
      then Inl RequestValidationError
      else
        (case generate_somalia_olc lib lat lon None of
           Inl e \<Rightarrow> Inl HTTPException_400
         | Inr c \<Rightarrow>
             (case decode_somalia_olc lib c of
                Inl e \<Rightarrow> Inl HTTPException_400
              | Inr d \<Rightarrow>
                  Inr \<lparr>lcr_code = c, lcr_latitude_center = latitude_center d,
                       lcr_longitude_center = longitude_center d,
                       lcr_region_code = region_code d\<rparr>)))"


section \<open>The codec's contract\<close>

definition valid_coordinates :: "real \<Rightarrow> real \<Rightarrow> bool" where
  "valid_coordinates lat lon = (- 90 \<le> lat \<and> lat \<le> 90 \<and> - 180 \<le> lon \<and> lon \<le> 180)"

text \<open>
  Modelled from the spec: the library behind \<open>olc.encode\<close> and \<open>olc.decode\<close> is not
  among the sources. Sections 4.1 and 8 (round trip): for coordinates in range
  \<open>encode\<close> returns a code, and \<open>decode\<close> of that code yields a cell, with its centre
  inside it, whose bounds contain the coordinates.
\<close>

definition codec_round_trip :: "olc \<Rightarrow> bool" where
  "codec_round_trip lib =
     (\<forall>lat lon. valid_coordinates lat lon \<longrightarrow>
        (\<exists>c area. encode lib lat lon None = Inr c \<and> decode lib c = Inr area \<and>
           latitudeLo area \<le> lat \<and> lat \<le> latitudeHi area \<and>
           longitudeLo area \<le> lon \<and> lon \<le> longitudeHi area \<and>
           latitudeLo area \<le> latitudeCenter area \<and> latitudeCenter area \<le> latitudeHi area \<and>
           longitudeLo area \<le> longitudeCenter area \<and> longitudeCenter area \<le> longitudeHi area))"

text \<open>
  Modelled from the spec: the library behind \<open>olc.decode\<close> is not among the sources.
  Sections 4.1 and 7: \<open>decode\<close> fails on a string that is not well-formed per the
  Open Location Code grammar, and a failure to decode is an \<open>InvalidCode\<close>. The
  colon is not a character of that grammar, so no well-formed code holds one.
\<close>

definition decode_rejects_malformed :: "olc \<Rightarrow> bool" where
  "decode_rejects_malformed lib =
     ((\<forall>c. CHR '':'' \<in> set c \<longrightarrow> decode lib c = Inl InvalidCode) \<and>
      (\<forall>c e. decode lib c = Inl e \<longrightarrow> e = InvalidCode))"

text \<open>
  A codec to run the helper with in examples: the coarsest grid of Open Location
  Code, cells of 20 by 20 degrees named by one pair of digits and padded to
  \<open>XX000000+\<close>. It ignores the requested length, and meets the contract above.
\<close>

definition olc_alphabet :: string where
  "olc_alphabet = ''23456789CFGHJMPQRVWX''"

definition digit_value :: "char \<Rightarrow> nat option" where
  "digit_value c = map_of (zip olc_alphabet [0..<20]) c"

definition grid_encode :: "real \<Rightarrow> real \<Rightarrow> int option \<Rightarrow> error + string" where
  "grid_encode lat lon n =
     (if \<not> valid_coordinates lat lon then Inl InvalidArgument
      else Inr ([olc_alphabet ! nat (min 8 \<lfloor>(lat + 90) / 20\<rfloor>),
                 olc_alphabet ! nat (min 17 \<lfloor>(lon + 180) / 20\<rfloor>)] @ ''000000+''))"

definition grid_cell :: "nat \<Rightarrow> nat \<Rightarrow> code_area" where
  "grid_cell i j =
     \<lparr>latitudeLo = 20 * real i - 90, longitudeLo = 20 * real j - 180,
      latitudeHi = 20 * real i - 70, longitudeHi = 20 * real j - 160,
      latitudeCenter = 20 * real i - 80, longitudeCenter = 20 * real j - 170,
      codeLength = 2\<rparr>"

definition grid_decode :: "string \<Rightarrow> error + code_area" where
  "grid_decode c =
     (if length c = 9 \<and> drop 2 c = ''000000+'' then
        (case (digit_value (c ! 0), digit_value (c ! 1)) of
           (Some i, Some j) \<Rightarrow> if i < 9 \<and> j < 18 then Inr (grid_cell i j) else Inl InvalidCode
         | _ \<Rightarrow> Inl InvalidCode)
      else Inl InvalidCode)"

definition grid_olc :: olc where
  "grid_olc = \<lparr>encode = grid_encode, decode = grid_decode\<rparr>"

text \<open>
  The openlocationcode package does not raise for coordinates out of range: it clips
  the latitude to [-90, 90] and brings the longitude into [-180, 180). A codec that
  does so on the same grid, for running the helper where that matters.
\<close>

definition clip_encode :: "real \<Rightarrow> real \<Rightarrow> int option \<Rightarrow> error + string" where
  "clip_encode lat lon n =
     (let lat' = max (- 90) (min 90 lat);
          lon' = lon - 360 * of_int \<lfloor>(lon + 180) / 360\<rfloor>
      in Inr ([olc_alphabet ! nat (min 8 \<lfloor>(lat' + 90) / 20\<rfloor>),
               olc_alphabet ! nat (min 17 \<lfloor>(lon' + 180) / 20\<rfloor>)] @ ''000000+''))"

definition clip_olc :: olc where
  "clip_olc = \<lparr>encode = clip_encode, decode = grid_decode\<rparr>"


section \<open>A sample dataset\<close>

text \<open>
  Three districts of the Hiiraan region and the region itself. The first district is
  stored without a code and lists its other spelling as an alias; the second row is
  that other spelling as a district of its own, so the two share a synthesized id.
\<close>

definition beledweyne :: district where
  "beledweyne = \<lparr>d_name = ''Beledweyne'', d_code = [], d_region_name = ''Hiiraan'',
     d_population = None, d_aliases = Some [''Beletweyne''], d_centroid = None\<rparr>"

definition beletweyne :: district where
  "beletweyne = \<lparr>d_name = ''Beletweyne'', d_code = [], d_region_name = ''Hiiraan'',
     d_population = None, d_aliases = None, d_centroid = None\<rparr>"

definition bulo_burde :: district where
  "bulo_burde = \<lparr>d_name = ''Bulo Burde'', d_code = ''SOM-HIR-BUL'', d_region_name = ''Hiiraan'',
     d_population = None, d_aliases = None, d_centroid = None\<rparr>"

definition hiiraan :: region where
  "hiiraan = \<lparr>r_name = ''Hiiraan'', r_code = ''SOM-HIR'', r_population = None\<rparr>"

definition hiiraan_db :: db where
  "hiiraan_db = \<lparr>districts = [beledweyne], regions = [hiiraan]\<rparr>"

definition sample_db :: db where
  "sample_db = \<lparr>districts = [beledweyne, beletweyne, bulo_burde], regions = [hiiraan]\<rparr>"

section \<open>The loops of the search\<close>

lemma scan_districts_skip:
  "\<not> (district_matches q d \<and> district_id d \<notin> seen) \<Longrightarrow>
   scan_districts q limit (d # ds) (results, seen) = scan_districts q limit ds (results, seen)"
  by auto

lemma scan_districts_break:
  "district_matches q d \<Longrightarrow> district_id d \<notin> seen \<Longrightarrow> limit \<le> int (length results) + 1 \<Longrightarrow>
   scan_districts q limit (d # ds) (results, seen) =
     (results @ [district_result d], insert (district_id d) seen)"
  by (simp add: Let_def)

lemma scan_districts_keep:
  "district_matches q d \<Longrightarrow> district_id d \<notin> seen \<Longrightarrow> int (length results) + 1 < limit \<Longrightarrow>
   scan_districts q limit (d # ds) (results, seen) =
     scan_districts q limit ds (results @ [district_result d], insert (district_id d) seen)"
  by (simp add: Let_def)

declare scan_districts.simps(2) [simp del]

lemma scan_districts_cases:
  obtains (skip) "\<not> (district_matches q d \<and> district_id d \<notin> seen)"
  | (break) "district_matches q d" "district_id d \<notin> seen" "limit \<le> int (length results) + 1"
  | (keep) "district_matches q d" "district_id d \<notin> seen" "int (length results) + 1 < limit"
  by fastforce

lemma scan_districts_length:
  "int (length results) < limit \<Longrightarrow>
   int (length (fst (scan_districts q limit ds (results, seen)))) \<le> limit"
proof (induction ds arbitrary: results seen)
  case Nil
  then show ?case by simp
next
  case (Cons d ds)
  show ?case
  proof (cases rule: scan_districts_cases [where q=q and d=d and seen=seen and limit=limit and results=results])
    case skip
    then show ?thesis using Cons by (simp add: scan_districts_skip)
  next
    case break
    then show ?thesis using Cons.prems by (simp add: scan_districts_break)
  next
    case keep
    then show ?thesis using Cons.IH [of "results @ [district_result d]"]
      by (simp add: scan_districts_keep)
  qed
qed

lemma scan_districts_stop:
  "int (length results) < limit \<Longrightarrow>
   limit \<le> int (length (fst (scan_districts q limit ds1 (results, seen)))) \<Longrightarrow>
   scan_districts q limit (ds1 @ ds2) (results, seen) = scan_districts q limit ds1 (results, seen)"
proof (induction ds1 arbitrary: results seen)
  case Nil
  then show ?case by simp
next
  case (Cons d ds1)
  show ?case
  proof (cases rule: scan_districts_cases [where q=q and d=d and seen=seen and limit=limit and results=results])
    case skip
    then show ?thesis using Cons by (simp add: scan_districts_skip)
  next
    case break
    then show ?thesis by (simp add: scan_districts_break)
  next
    case keep
    then show ?thesis
      using Cons.IH [of "results @ [district_result d]" "insert (district_id d) seen"] Cons.prems
      by (simp add: scan_districts_keep)
  qed
qed

lemma scan_regions_length:
  "length (fst (scan_regions rs (results, seen))) \<le> length results + length rs"
proof (induction rs arbitrary: results seen)
  case Nil
  show ?case by simp
next
  case (Cons r rs)
  show ?case using Cons.IH [of "results @ [region_result r]" "insert (r_code r) seen"]
      Cons.IH [of results seen] by auto
qed

lemma select_regions_length: "length (select_regions tbl q n) \<le> nat n"
  by (simp add: select_regions_def)

lemma search_places_data:
  "data (search_places store name limit) =
     (let nl = lower name;
          found = scan_districts nl limit (select_districts (districts store) nl (limit * 2)) ([], {})
      in if int (length (fst found)) < limit
         then fst (scan_regions (select_regions (regions store) nl (limit - int (length (fst found)))) found)
         else fst found)"
  by (simp add: search_places_def Let_def)

lemma search_length:
  assumes "1 \<le> limit"
  shows "int (length (data (search_places store name limit))) \<le> limit"
proof -
  let ?nl = "lower name"
  let ?found = "scan_districts ?nl limit (select_districts (districts store) ?nl (limit * 2)) ([], {})"
  have f: "int (length (fst ?found)) \<le> limit"
    using scan_districts_length [of "[]" limit ?nl _ "{}"] assms by simp
  show ?thesis
  proof (cases "int (length (fst ?found)) < limit")
    case True
    let ?rs = "select_regions (regions store) ?nl (limit - int (length (fst ?found)))"
    have "length (fst (scan_regions ?rs ?found)) \<le> length (fst ?found) + length ?rs"
      using scan_regions_length [of ?rs "fst ?found" "snd ?found"] by simp
    moreover have "length ?rs \<le> nat (limit - int (length (fst ?found)))"
      by (rule select_regions_length)
    ultimately have "int (length (fst (scan_regions ?rs ?found))) \<le> limit"
      using True by linarith
    then show ?thesis using True by (simp add: search_places_data Let_def)
  next
    case False
    then show ?thesis using f by (simp add: search_places_data Let_def)
  qed
qed


lemma psr_id_district_result [simp]: "psr_id (district_result d) = district_id d"
  by (simp add: district_result_def)

lemma psr_id_region_result [simp]: "psr_id (region_result r) = r_code r"
  by (simp add: region_result_def)

lemma scan_districts_first:
  "\<exists>new. fst (scan_districts q limit ds (results, seen)) = results @ new \<and>
         snd (scan_districts q limit ds (results, seen)) = seen \<union> psr_id ` set new \<and>
         distinct (map psr_id new) \<and>
         (\<forall>r\<in>set new. psr_id r \<notin> seen \<and>
            find (\<lambda>c. psr_id c = psr_id r) (district_candidates q ds) = Some r)"
proof (induction ds arbitrary: results seen)
  case Nil
  show ?case by simp
next
  case (Cons d ds)
  show ?case
  proof (cases rule: scan_districts_cases [where q=q and d=d and seen=seen and limit=limit and results=results])
    case skip
    obtain new where n: "fst (scan_districts q limit ds (results, seen)) = results @ new"
      "snd (scan_districts q limit ds (results, seen)) = seen \<union> psr_id ` set new"
      "distinct (map psr_id new)"
      "\<forall>r\<in>set new. psr_id r \<notin> seen \<and>
            find (\<lambda>c. psr_id c = psr_id r) (district_candidates q ds) = Some r"
      using Cons.IH [of results seen] by blast
    have "\<forall>r\<in>set new. find (\<lambda>c. psr_id c = psr_id r) (district_candidates q (d # ds)) = Some r"
      using n(4) skip by (auto simp: district_candidates_def)
    with n skip show ?thesis by (auto simp: scan_districts_skip)
  next
    case break
    have "find (\<lambda>c. psr_id c = district_id d) (district_candidates q (d # ds)) = Some (district_result d)"
      using break by (simp add: district_candidates_def)
    with break show ?thesis
      by (intro exI [of _ "[district_result d]"]) (simp add: scan_districts_break)
  next
    case keep
    let ?st = "(results @ [district_result d], insert (district_id d) seen)"
    obtain new where n: "fst (scan_districts q limit ds ?st) = (results @ [district_result d]) @ new"
      "snd (scan_districts q limit ds ?st) = insert (district_id d) seen \<union> psr_id ` set new"
      "distinct (map psr_id new)"
      "\<forall>r\<in>set new. psr_id r \<notin> insert (district_id d) seen \<and>
            find (\<lambda>c. psr_id c = psr_id r) (district_candidates q ds) = Some r"
      using Cons.IH [of "results @ [district_result d]" "insert (district_id d) seen"] by blast
    have a: "\<forall>r\<in>set new. find (\<lambda>c. psr_id c = psr_id r) (district_candidates q (d # ds)) = Some r"
      using n(4) keep by (auto simp: district_candidates_def)
    have b: "find (\<lambda>c. psr_id c = district_id d) (district_candidates q (d # ds)) = Some (district_result d)"
      using keep by (simp add: district_candidates_def)
    have c: "district_id d \<notin> psr_id ` set new" using n(4) by auto
    show ?thesis
      using n a b c keep
      by (intro exI [of _ "district_result d # new"]) (auto simp: scan_districts_keep)
  qed
qed

lemma scan_districts_complete:
  "int (length (fst (scan_districts q limit ds (results, seen)))) < limit \<Longrightarrow>
   d \<in> set ds \<Longrightarrow> district_matches q d \<Longrightarrow>
   district_id d \<in> snd (scan_districts q limit ds (results, seen))"
proof (induction ds arbitrary: results seen)
  case Nil
  then show ?case by simp
next
  case (Cons x ds)
  have mono: "\<And>rs sn. sn \<subseteq> snd (scan_districts q limit ds (rs, sn))"
    using scan_districts_first by (metis Un_upper1)
  show ?case
  proof (cases rule: scan_districts_cases [where q=q and d=x and seen=seen and limit=limit and results=results])
    case skip
    show ?thesis
    proof (cases "d = x")
      case True
      with skip Cons.prems have "district_id d \<in> seen" by simp
      then show ?thesis using mono [of seen results] skip by (auto simp: scan_districts_skip)
    next
      case False
      then show ?thesis using Cons skip by (simp add: scan_districts_skip)
    qed
  next
    case break
    then show ?thesis using Cons.prems by (simp add: scan_districts_break)
  next
    case keep
    show ?thesis
    proof (cases "d = x")
      case True
      then show ?thesis
        using mono [of "insert (district_id x) seen" "results @ [district_result x]"] keep
        by (auto simp: scan_districts_keep)
    next
      case False
      then show ?thesis
        using Cons.IH [of "results @ [district_result x]" "insert (district_id x) seen"] Cons.prems keep
        by (simp add: scan_districts_keep)
    qed
  qed
qed

lemma scan_regions_first:
  "\<exists>new. fst (scan_regions rs (results, seen)) = results @ new \<and>
         snd (scan_regions rs (results, seen)) = seen \<union> psr_id ` set new \<and>
         distinct (map psr_id new) \<and>
         (\<forall>r\<in>set new. psr_id r \<notin> seen \<and>
            find (\<lambda>c. psr_id c = psr_id r) (map region_result rs) = Some r)"
proof (induction rs arbitrary: results seen)
  case Nil
  show ?case by simp
next
  case (Cons g rs)
  show ?case
  proof (cases "r_code g \<in> seen")
    case True
    obtain new where n: "fst (scan_regions rs (results, seen)) = results @ new"
      "snd (scan_regions rs (results, seen)) = seen \<union> psr_id ` set new"
      "distinct (map psr_id new)"
      "\<forall>r\<in>set new. psr_id r \<notin> seen \<and>
            find (\<lambda>c. psr_id c = psr_id r) (map region_result rs) = Some r"
      using Cons.IH [of results seen] by blast
    have "\<forall>r\<in>set new. find (\<lambda>c. psr_id c = psr_id r) (map region_result (g # rs)) = Some r"
      using n(4) True by auto
    with n True show ?thesis by auto
  next
    case False
    let ?st = "(results @ [region_result g], insert (r_code g) seen)"
    obtain new where n: "fst (scan_regions rs ?st) = (results @ [region_result g]) @ new"
      "snd (scan_regions rs ?st) = insert (r_code g) seen \<union> psr_id ` set new"
      "distinct (map psr_id new)"
      "\<forall>r\<in>set new. psr_id r \<notin> insert (r_code g) seen \<and>
            find (\<lambda>c. psr_id c = psr_id r) (map region_result rs) = Some r"
      using Cons.IH [of "results @ [region_result g]" "insert (r_code g) seen"] by blast
    have a: "\<forall>r\<in>set new. find (\<lambda>c. psr_id c = psr_id r) (map region_result (g # rs)) = Some r"
      using n(4) by auto
    have c: "r_code g \<notin> psr_id ` set new" using n(4) by auto
    show ?thesis
      using n a c False
      by (intro exI [of _ "region_result g # new"]) auto
  qed
qed

lemma find_append_left: "find P xs = Some x \<Longrightarrow> find P (xs @ ys) = Some x"
  by (induction xs) (auto split: if_splits)

lemma find_append_right: "\<forall>x\<in>set xs. \<not> P x \<Longrightarrow> find P (xs @ ys) = find P ys"
  by (induction xs) auto

lemma disjoint_images:
  assumes "\<forall>y\<in>set ys. f y \<notin> f ` set xs"
  shows "f ` set xs \<inter> f ` set ys = {}"
proof (rule equals0I)
  fix v assume "v \<in> f ` set xs \<inter> f ` set ys"
  then obtain y where "y \<in> set ys" "v = f y" "v \<in> f ` set xs" by blast
  with assms show False by blast
qed

lemma distinct_count_le_1:
  "distinct (map f xs) \<Longrightarrow> length (filter (\<lambda>x. f x = i) xs) \<le> 1"
  by (induction xs) (auto simp: filter_empty_conv image_iff)

lemma search_first_wins:
  "distinct (map psr_id (data (search_places store name limit))) \<and>
   (\<forall>r\<in>set (data (search_places store name limit)).
      find (\<lambda>c. psr_id c = psr_id r) (scan_order store name limit) = Some r)"
proof -
  let ?nl = "lower name"
  let ?ds = "select_districts (districts store) ?nl (limit * 2)"
  let ?found = "scan_districts ?nl limit ?ds ([], {})"
  let ?rs = "select_regions (regions store) ?nl (limit - int (length (fst ?found)))"
  obtain newd where d: "fst ?found = newd" "snd ?found = psr_id ` set newd"
    "distinct (map psr_id newd)"
    "\<forall>r\<in>set newd. find (\<lambda>c. psr_id c = psr_id r) (district_candidates ?nl ?ds) = Some r"
    using scan_districts_first [of ?nl limit ?ds "[]" "{}"] by auto
  have so: "scan_order store name limit = district_candidates ?nl ?ds @ map region_result ?rs"
    by (simp add: scan_order_def Let_def)
  have dpart: "\<forall>r\<in>set newd. find (\<lambda>c. psr_id c = psr_id r) (scan_order store name limit) = Some r"
    using d(4) by (simp add: so find_append_left)
  show ?thesis
  proof (cases "int (length (fst ?found)) < limit")
    case False
    then have "data (search_places store name limit) = newd"
      using d(1) by (simp add: search_places_data Let_def)
    then show ?thesis using d(3) dpart by simp
  next
    case True
    obtain newr where r: "fst (scan_regions ?rs ?found) = fst ?found @ newr"
      "distinct (map psr_id newr)"
      "\<forall>r\<in>set newr. psr_id r \<notin> snd ?found \<and>
            find (\<lambda>c. psr_id c = psr_id r) (map region_result ?rs) = Some r"
      using scan_regions_first [of ?rs "fst ?found" "snd ?found"]
      unfolding prod.collapse by blast
    have dat: "data (search_places store name limit) = newd @ newr"
      using True r(1) d(1) by (simp add: search_places_data Let_def)
    have seen_all: "\<forall>c\<in>set (district_candidates ?nl ?ds). psr_id c \<in> snd ?found"
      using scan_districts_complete [OF True] by (auto simp: district_candidates_def)
    have rpart: "\<forall>r\<in>set newr. find (\<lambda>c. psr_id c = psr_id r) (scan_order store name limit) = Some r"
    proof
      fix x assume x: "x \<in> set newr"
      then have "\<forall>c\<in>set (district_candidates ?nl ?ds). \<not> psr_id c = psr_id x"
        using r(3) seen_all by metis
      then have "find (\<lambda>c. psr_id c = psr_id x) (scan_order store name limit) =
                 find (\<lambda>c. psr_id c = psr_id x) (map region_result ?rs)"
        unfolding so by (rule find_append_right)
      then show "find (\<lambda>c. psr_id c = psr_id x) (scan_order store name limit) = Some x"
        using r(3) x by simp
    qed
    have "\<forall>x\<in>set newr. psr_id x \<notin> psr_id ` set newd"
      using r(3) d(2) by simp
    then have "psr_id ` set newd \<inter> psr_id ` set newr = {}"
      by (rule disjoint_images)
    then have "distinct (map psr_id (newd @ newr))"
      using d(3) r(2) by simp
    then show ?thesis using dat dpart rpart by auto
  qed
qed

text \<open>Every fetched district matches by its name or its region name, so the loop's
  test of the aliases is never reached for a fetched row.\<close>

lemma select_districts_name_match:
  "d \<in> set (select_districts tbl q n) \<Longrightarrow>
   str_in q (lower (d_name d)) \<or> str_in q (lower (d_region_name d))"
  by (auto simp: select_districts_def dest: in_set_takeD)

lemma select_districts_subset: "set (select_districts tbl q n) \<subseteq> set tbl"
  by (auto simp: select_districts_def dest: in_set_takeD)

lemma select_regions_subset: "set (select_regions tbl q n) \<subseteq> set tbl"
  by (auto simp: select_regions_def dest: in_set_takeD)

lemma scan_districts_from:
  "r \<in> set (fst (scan_districts q limit ds (results, seen))) \<Longrightarrow>
   r \<in> set results \<or> (\<exists>d\<in>set ds. r = district_result d)"
proof (induction ds arbitrary: results seen)
  case Nil
  then show ?case by simp
next
  case (Cons d ds)
  show ?case
  proof (cases rule: scan_districts_cases [where q=q and d=d and seen=seen and limit=limit and results=results])
    case skip
    then show ?thesis using Cons by (auto simp: scan_districts_skip)
  next
    case break
    then show ?thesis using Cons.prems by (auto simp: scan_districts_break)
  next
    case keep
    then show ?thesis
      using Cons.IH [of "results @ [district_result d]" "insert (district_id d) seen"] Cons.prems
      by (auto simp: scan_districts_keep)
  qed
qed

lemma scan_regions_from:
  "r \<in> set (fst (scan_regions rs (results, seen))) \<Longrightarrow>
   r \<in> set results \<or> (\<exists>g\<in>set rs. r = region_result g)"
proof (induction rs arbitrary: results seen)
  case Nil
  then show ?case by simp
next
  case (Cons g rs)
  then show ?case
    using Cons.IH [of "results @ [region_result g]" "insert (r_code g) seen"]
      Cons.IH [of results seen]
    by (auto split: if_splits)
qed

lemma search_from:
  assumes "r \<in> set (data (search_places store name limit))"
  shows "(\<exists>d\<in>set (districts store). r = district_result d) \<or>
         (\<exists>g\<in>set (regions store). r = region_result g)"
proof -
  let ?nl = "lower name"
  let ?ds = "select_districts (districts store) ?nl (limit * 2)"
  let ?found = "scan_districts ?nl limit ?ds ([], {})"
  let ?rs = "select_regions (regions store) ?nl (limit - int (length (fst ?found)))"
  have f: "\<And>x. x \<in> set (fst ?found) \<Longrightarrow> \<exists>d\<in>set (districts store). x = district_result d"
    using scan_districts_from [of _ ?nl limit ?ds "[]" "{}"] select_districts_subset by fastforce
  show ?thesis
  proof (cases "int (length (fst ?found)) < limit")
    case False
    then show ?thesis using assms f by (simp add: search_places_data Let_def)
  next
    case True
    then have "r \<in> set (fst (scan_regions ?rs (fst ?found, snd ?found)))"
      using assms unfolding prod.collapse by (simp add: search_places_data Let_def)
    then have "r \<in> set (fst ?found) \<or> (\<exists>g\<in>set ?rs. r = region_result g)"
      by (rule scan_regions_from)
    then show ?thesis using f select_regions_subset by fastforce
  qed
qed


section \<open>The search on the sample dataset\<close>

lemma lower_examples:
  "lower ''hiiraan'' = ''hiiraan''" "lower ''Hiiraan'' = ''hiiraan''"
  "lower ''beletweyne'' = ''beletweyne''" "lower ''Beletweyne'' = ''beletweyne''"
  "lower ''Beledweyne'' = ''beledweyne''" "lower ''Bulo Burde'' = ''bulo burde''"
  by (simp_all add: lower_def lower_char_def)

lemma upper_examples: "upper ''Hii'' = ''HII''" "upper ''Bel'' = ''BEL''"
  by (simp_all add: upper_def upper_char_def)

lemma sample_ids:
  "district_id beledweyne = ''SOM-HII-BEL''" "district_id beletweyne = ''SOM-HII-BEL''"
  "district_id bulo_burde = ''SOM-HIR-BUL''"
  by (simp_all add: district_id_def beledweyne_def beletweyne_def bulo_burde_def upper_examples)

lemma sample_matches:
  "district_matches ''hiiraan'' beledweyne" "district_matches ''hiiraan'' beletweyne"
  "district_matches ''hiiraan'' bulo_burde"
  by (simp_all add: district_matches_def beledweyne_def beletweyne_def bulo_burde_def lower_examples)

lemma sample_select:
  "select_districts [beledweyne, beletweyne, bulo_burde] ''hiiraan'' 20 = [beledweyne, beletweyne, bulo_burde]"
  "select_districts [beledweyne, beletweyne, bulo_burde] ''hiiraan'' 4 = [beledweyne, beletweyne, bulo_burde]"
  "select_regions [hiiraan] ''hiiraan'' 8 = [hiiraan]"
  by (simp_all add: select_districts_def select_regions_def beledweyne_def beletweyne_def
      bulo_burde_def hiiraan_def lower_examples)

lemma sample_scan_10:
  "scan_districts ''hiiraan'' 10 [beledweyne, beletweyne, bulo_burde] ([], {}) =
     ([district_result beledweyne, district_result bulo_burde], {''SOM-HII-BEL'', ''SOM-HIR-BUL''})"
  by (simp add: scan_districts.simps sample_matches sample_ids Let_def insert_commute)

lemma sample_scan_2:
  "scan_districts ''hiiraan'' 2 [beledweyne, beletweyne, bulo_burde] ([], {}) =
     ([district_result beledweyne, district_result bulo_burde], {''SOM-HII-BEL'', ''SOM-HIR-BUL''})"
  by (simp add: scan_districts.simps sample_matches sample_ids Let_def insert_commute)

lemma sample_region: "r_code hiiraan = ''SOM-HIR''"
  by (simp add: hiiraan_def)

lemma sample_search_10:
  "data (search_places sample_db ''hiiraan'' 10) =
     [district_result beledweyne, district_result bulo_burde, region_result hiiraan]"
  by (simp add: search_places_data sample_db_def lower_examples sample_select sample_scan_10
      Let_def sample_region)

lemma sample_search_2:
  "data (search_places sample_db ''hiiraan'' 2) =
     [district_result beledweyne, district_result bulo_burde]"
  by (simp add: search_places_data sample_db_def lower_examples sample_select sample_scan_2 Let_def)

lemma sample_scan_order:
  "scan_order sample_db ''hiiraan'' 10 =
     [district_result beledweyne, district_result beletweyne, district_result bulo_burde,
      region_result hiiraan]"
  by (simp add: scan_order_def district_candidates_def sample_db_def lower_examples sample_select
      sample_scan_10 sample_matches Let_def)

section \<open>Properties of the place search\<close>

text \<open>
  C1. A district whose name and region name do not contain the search text, but one
  of whose aliases does, should be returned by the search. The district query
  fetches only rows whose name or region name contains the text, so the alias test
  of the loop never sees such a district: for the district named Beledweyne with the
  alias Beletweyne the loop's test holds, and the search for \<open>beletweyne\<close> with
  limit 10 returns nothing.
\<close>

theorem alias_only_district_missed:
  "district_matches (lower ''beletweyne'') beledweyne \<and>
   \<not> str_in (lower ''beletweyne'') (lower (d_name beledweyne)) \<and>
   \<not> str_in (lower ''beletweyne'') (lower (d_region_name beledweyne)) \<and>
   d_aliases beledweyne = Some [''Beletweyne''] \<and>
   data (search_places hiiraan_db ''beletweyne'' 10) = []"
  by (simp add: search_places_data select_districts_def select_regions_def district_matches_def
      hiiraan_db_def hiiraan_def beledweyne_def lower_examples Let_def)

text \<open>
  C4. For every search text and every limit of at least 1, the search returns at most
  \<open>limit\<close> results (and \<open>count\<close> is their number). The district loop stops as soon
  as \<open>limit\<close> results are assembled: once a prefix of the fetched rows has produced
  \<open>limit\<close> results, the rows after it change nothing. The region query asks for at
  most \<open>limit\<close> minus the number of district results.
\<close>

theorem search_limit:
  assumes "1 \<le> limit"
  shows "int (length (data (search_places store name limit))) \<le> limit \<and>
         count (search_places store name limit) = length (data (search_places store name limit)) \<and>
         (\<forall>ds1 ds2. int (length (fst (scan_districts (lower name) limit ds1 ([], {})))) = limit \<longrightarrow>
            scan_districts (lower name) limit (ds1 @ ds2) ([], {}) =
            scan_districts (lower name) limit ds1 ([], {})) \<and>
         (let found = fst (scan_districts (lower name) limit
                       (select_districts (districts store) (lower name) (limit * 2)) ([], {}))
          in int (length found) \<le> limit \<and>
             int (length (select_regions (regions store) (lower name) (limit - int (length found))))
               \<le> limit - int (length found))"
proof -
  let ?found = "fst (scan_districts (lower name) limit
                       (select_districts (districts store) (lower name) (limit * 2)) ([], {}))"
  have a: "int (length (data (search_places store name limit))) \<le> limit"
    using assms by (rule search_length)
  have b: "count (search_places store name limit) = length (data (search_places store name limit))"
    by (simp add: search_places_def Let_def)
  have c: "\<forall>ds1 ds2. int (length (fst (scan_districts (lower name) limit ds1 ([], {})))) = limit \<longrightarrow>
            scan_districts (lower name) limit (ds1 @ ds2) ([], {}) =
            scan_districts (lower name) limit ds1 ([], {})"
    using assms scan_districts_stop [of "[]" limit "lower name" _ "{}"] by simp
  have d: "int (length ?found) \<le> limit"
    using assms scan_districts_length [of "[]" limit "lower name" _ "{}"] by simp
  have "length (select_regions (regions store) (lower name) (limit - int (length ?found)))
          \<le> nat (limit - int (length ?found))"
    by (rule select_regions_length)
  with d have e: "int (length (select_regions (regions store) (lower name) (limit - int (length ?found))))
          \<le> limit - int (length ?found)"
    by linarith
  from a b c d e show ?thesis by (simp add: Let_def)
qed

theorem search_limit_witness:
  "(1::int) \<le> 2 \<and>
   int (length (data (search_places sample_db ''hiiraan'' 2))) \<le> 2 \<and>
   data (search_places sample_db ''hiiraan'' 2) =
     [district_result beledweyne, district_result bulo_burde] \<and>
   scan_districts (lower ''hiiraan'') 2 ([beledweyne, beletweyne, bulo_burde] @ [beledweyne]) ([], {}) =
   scan_districts (lower ''hiiraan'') 2 [beledweyne, beletweyne, bulo_burde] ([], {})"
proof -
  have h: "(1::int) \<le> 2" by simp
  have "int (length (fst (scan_districts (lower ''hiiraan'') 2 [beledweyne, beletweyne, bulo_burde] ([], {})))) = 2"
    by (simp add: lower_examples sample_scan_2)
  moreover have "\<forall>ds1 ds2. int (length (fst (scan_districts (lower ''hiiraan'') 2 ds1 ([], {})))) = 2 \<longrightarrow>
            scan_districts (lower ''hiiraan'') 2 (ds1 @ ds2) ([], {}) =
            scan_districts (lower ''hiiraan'') 2 ds1 ([], {})"
    using search_limit [OF h, of sample_db "''hiiraan''"] by blast
  ultimately have "scan_districts (lower ''hiiraan'') 2 ([beledweyne, beletweyne, bulo_burde] @ [beledweyne]) ([], {}) =
   scan_districts (lower ''hiiraan'') 2 [beledweyne, beletweyne, bulo_burde] ([], {})"
    by blast
  moreover have "int (length (data (search_places sample_db ''hiiraan'' 2))) \<le> 2"
    using search_limit [OF h, of sample_db "''hiiraan''"] by blast
  ultimately show ?thesis
    using sample_search_2 by simp
qed

text \<open>
  C5. For every search text and limit, no two results have the same id; each result
  is the first candidate with its id in scan order (the fetched districts that match,
  then the fetched regions); so for any id, and whatever the dataset holds, at most
  one result has it.
\<close>

theorem search_dedup:
  "distinct (map psr_id (data (search_places store name limit))) \<and>
   (\<forall>r\<in>set (data (search_places store name limit)).
      find (\<lambda>c. psr_id c = psr_id r) (scan_order store name limit) = Some r) \<and>
   (\<forall>i. length (filter (\<lambda>r. psr_id r = i) (data (search_places store name limit))) \<le> 1)"
  using search_first_wins [of store name limit]
    distinct_count_le_1 [of psr_id "data (search_places store name limit)"]
  by simp

theorem search_dedup_witness:
  "data (search_places sample_db ''hiiraan'' 10) =
     [district_result beledweyne, district_result bulo_burde, region_result hiiraan] \<and>
   scan_order sample_db ''hiiraan'' 10 =
     [district_result beledweyne, district_result beletweyne, district_result bulo_burde,
      region_result hiiraan] \<and>
   psr_id (district_result beledweyne) = psr_id (district_result beletweyne) \<and>
   find (\<lambda>c. psr_id c = ''SOM-HII-BEL'') (scan_order sample_db ''hiiraan'' 10) =
     Some (district_result beledweyne) \<and>
   length (filter (\<lambda>r. psr_id r = ''SOM-HII-BEL'') (data (search_places sample_db ''hiiraan'' 10))) \<le> 1"
proof -
  have "district_result beledweyne \<in> set (data (search_places sample_db ''hiiraan'' 10))"
    by (simp add: sample_search_10)
  with search_dedup [of sample_db "''hiiraan''" 10]
  have "find (\<lambda>c. psr_id c = psr_id (district_result beledweyne)) (scan_order sample_db ''hiiraan'' 10) =
     Some (district_result beledweyne)"
    by blast
  moreover have "length (filter (\<lambda>r. psr_id r = ''SOM-HII-BEL'') (data (search_places sample_db ''hiiraan'' 10))) \<le> 1"
    using search_dedup [of sample_db "''hiiraan''" 10] by blast
  ultimately show ?thesis
    using sample_search_10 sample_scan_order by (simp add: sample_ids)
qed

text \<open>
  C9. Every result of the search is either a district result, built from a district
  of the dataset, whose id is that district's code when the code is not empty and
  otherwise \<open>SOM-\<close>, the first three characters of the region name in upper case,
  \<open>-\<close>, and the first three characters of the name in upper case; or a region
  result, built from a region of the dataset, whose id is that region's code.
\<close>

theorem search_result_ids:
  "\<forall>r\<in>set (data (search_places store name limit)).
     (psr_type r = ''district'' \<and>
      (\<exists>d\<in>set (districts store).
         psr_name r = d_name d \<and> psr_region r = d_region_name d \<and>
         psr_aliases r = d_aliases d \<and> psr_centroid r = d_centroid d \<and>
         psr_population r = d_population d \<and>
         psr_id r =
           (if d_code d \<noteq> [] then d_code d
            else ''SOM-'' @ upper (take 3 (d_region_name d)) @ ''-'' @ upper (take 3 (d_name d))))) \<or>
     (psr_type r = ''region'' \<and>
      (\<exists>g\<in>set (regions store).
         psr_name r = r_name g \<and> psr_region r = r_name g \<and> psr_centroid r = None \<and>
         psr_population r = r_population g \<and> psr_id r = r_code g))"
proof
  fix r assume "r \<in> set (data (search_places store name limit))"
  then consider d where "d \<in> set (districts store)" "r = district_result d"
    | g where "g \<in> set (regions store)" "r = region_result g"
    using search_from by blast
  then show "(psr_type r = ''district'' \<and>
      (\<exists>d\<in>set (districts store).
         psr_name r = d_name d \<and> psr_region r = d_region_name d \<and>
         psr_aliases r = d_aliases d \<and> psr_centroid r = d_centroid d \<and>
         psr_population r = d_population d \<and>
         psr_id r =
           (if d_code d \<noteq> [] then d_code d
            else ''SOM-'' @ upper (take 3 (d_region_name d)) @ ''-'' @ upper (take 3 (d_name d))))) \<or>
     (psr_type r = ''region'' \<and>
      (\<exists>g\<in>set (regions store).
         psr_name r = r_name g \<and> psr_region r = r_name g \<and> psr_centroid r = None \<and>
         psr_population r = r_population g \<and> psr_id r = r_code g))"
  proof cases
    case 1
    then have "psr_type r = ''district'' \<and> psr_name r = d_name d \<and> psr_region r = d_region_name d \<and>
         psr_aliases r = d_aliases d \<and> psr_centroid r = d_centroid d \<and>
         psr_population r = d_population d \<and>
         psr_id r =
           (if d_code d \<noteq> [] then d_code d
            else ''SOM-'' @ upper (take 3 (d_region_name d)) @ ''-'' @ upper (take 3 (d_name d)))"
      by (simp add: district_result_def district_id_def)
    with 1(1) show ?thesis by blast
  next
    case 2
    then have "psr_type r = ''region'' \<and> psr_name r = r_name g \<and> psr_region r = r_name g \<and>
         psr_centroid r = None \<and> psr_population r = r_population g \<and> psr_id r = r_code g"
      by (simp add: region_result_def)
    with 2(1) show ?thesis by blast
  qed
qed

theorem search_result_ids_witness:
  "data (search_places sample_db ''hiiraan'' 10) =
     [district_result beledweyne, district_result bulo_burde, region_result hiiraan] \<and>
   map psr_id (data (search_places sample_db ''hiiraan'' 10)) =
     [''SOM-HII-BEL'', ''SOM-HIR-BUL'', ''SOM-HIR''] \<and>
   map psr_type (data (search_places sample_db ''hiiraan'' 10)) =
     [''district'', ''district'', ''region'']"
  using search_result_ids [of sample_db "''hiiraan''" 10] sample_search_10
  by (simp add: sample_ids sample_region district_result_def region_result_def)


section \<open>The sample codec meets the contract\<close>

lemma digit_value_alphabet: "i < 20 \<Longrightarrow> digit_value (olc_alphabet ! i) = Some i"
proof -
  assume i: "i < 20"
  have "map_of (zip olc_alphabet [0..<20]) (olc_alphabet ! i) = Some ([0..<20] ! i)"
    by (rule map_of_zip_nth) (simp_all add: olc_alphabet_def i)
  then show ?thesis using i by (simp add: digit_value_def)
qed

lemma digit_value_colon: "digit_value (CHR '':'') = None"
  by (simp add: digit_value_def olc_alphabet_def map_of_zip_is_None)

lemma grid_index:
  assumes "0 \<le> x" "x \<le> 20 * real_of_int m + 20" "0 \<le> m"
  defines "i \<equiv> nat (min m \<lfloor>x / 20\<rfloor>)"
  shows "i \<le> nat m" "20 * real i \<le> x" "x \<le> 20 * real i + 20"
proof -
  have f0: "0 \<le> \<lfloor>x / 20\<rfloor>" using assms(1) by simp
  then have ri: "real i = of_int (min m \<lfloor>x / 20\<rfloor>)"
    using assms(3) by (simp add: i_def)
  show "i \<le> nat m" by (simp add: i_def)
  have "of_int \<lfloor>x / 20\<rfloor> \<le> x / 20" by (rule of_int_floor_le)
  then show "20 * real i \<le> x" unfolding ri by (simp add: min_def split: if_splits)
  show "x \<le> 20 * real i + 20"
  proof (cases "m \<le> \<lfloor>x / 20\<rfloor>")
    case True
    then show ?thesis using assms(2) unfolding ri by (simp add: min_def)
  next
    case False
    have "x / 20 < of_int \<lfloor>x / 20\<rfloor> + 1" by linarith
    then have "x < 20 * of_int \<lfloor>x / 20\<rfloor> + 20" by linarith
    then show ?thesis using False unfolding ri by (simp add: min_def)
  qed
qed


lemma grid_round_trip: "codec_round_trip grid_olc"
  unfolding codec_round_trip_def
proof (intro allI impI)
  fix lat lon assume v: "valid_coordinates lat lon"
  define i where "i = nat (min 8 \<lfloor>(lat + 90) / 20\<rfloor>)"
  define j where "j = nat (min 17 \<lfloor>(lon + 180) / 20\<rfloor>)"
  define c where "c = [olc_alphabet ! i, olc_alphabet ! j] @ ''000000+''"
  have i: "i \<le> 8" "20 * real i \<le> lat + 90" "lat + 90 \<le> 20 * real i + 20"
    using grid_index [of "lat + 90" 8] v by (simp_all add: i_def valid_coordinates_def)
  have j: "j \<le> 17" "20 * real j \<le> lon + 180" "lon + 180 \<le> 20 * real j + 20"
    using grid_index [of "lon + 180" 17] v by (simp_all add: j_def valid_coordinates_def)
  have enc: "encode grid_olc lat lon None = Inr c"
    using v by (simp add: grid_olc_def grid_encode_def c_def i_def j_def)
  have "digit_value (c ! 0) = Some i" "digit_value (c ! 1) = Some j"
    using i(1) j(1) by (simp_all add: c_def digit_value_alphabet)
  then have dec: "decode grid_olc c = Inr (grid_cell i j)"
    using i(1) j(1) by (simp add: grid_olc_def grid_decode_def c_def)
  have "latitudeLo (grid_cell i j) \<le> lat \<and> lat \<le> latitudeHi (grid_cell i j) \<and>
        longitudeLo (grid_cell i j) \<le> lon \<and> lon \<le> longitudeHi (grid_cell i j) \<and>
        latitudeLo (grid_cell i j) \<le> latitudeCenter (grid_cell i j) \<and>
        latitudeCenter (grid_cell i j) \<le> latitudeHi (grid_cell i j) \<and>
        longitudeLo (grid_cell i j) \<le> longitudeCenter (grid_cell i j) \<and>
        longitudeCenter (grid_cell i j) \<le> longitudeHi (grid_cell i j)"
    using i(2,3) j(2,3) by (simp add: grid_cell_def)
  with enc dec show "\<exists>c area. encode grid_olc lat lon None = Inr c \<and> decode grid_olc c = Inr area \<and>
           latitudeLo area \<le> lat \<and> lat \<le> latitudeHi area \<and>
           longitudeLo area \<le> lon \<and> lon \<le> longitudeHi area \<and>
           latitudeLo area \<le> latitudeCenter area \<and> latitudeCenter area \<le> latitudeHi area \<and>
           longitudeLo area \<le> longitudeCenter area \<and> longitudeCenter area \<le> longitudeHi area"
    by blast
qed

lemma grid_decode_errors: "grid_decode c = Inl e \<Longrightarrow> e = InvalidCode"
  by (auto simp: grid_decode_def split: if_splits option.splits)

lemma grid_decode_colon:
  assumes "CHR '':'' \<in> set c"
  shows "grid_decode c = Inl InvalidCode"
proof (cases "length c = 9 \<and> drop 2 c = ''000000+''")
  case False
  then have "grid_decode c = (if False then undefined else Inl InvalidCode)"
    unfolding grid_decode_def by (simp only: if_False)
  then show ?thesis by simp
next
  case True
  obtain a c' where c1: "c = a # c'" using True by (cases c) simp_all
  obtain b r where c2: "c' = b # r" using True c1 by (cases c') simp_all
  have r: "r = ''000000+''" using True c1 c2 by simp
  have "a = CHR '':'' \<or> b = CHR '':''" using assms by (auto simp: c1 c2 r)
  then have "digit_value (c ! 0) = None \<or> digit_value (c ! 1) = None"
    using digit_value_colon by (auto simp: c1 c2)
  then show ?thesis
    by (auto simp: grid_decode_def split: option.splits)
qed

lemma grid_rejects_malformed: "decode_rejects_malformed grid_olc"
  using grid_decode_errors
  by (simp add: decode_rejects_malformed_def grid_olc_def grid_decode_colon)


section \<open>The helper functions, step by step\<close>

lemma split_colon_append:
  "CHR '':'' \<notin> set pre \<Longrightarrow> split_colon (pre @ CHR '':'' # rest) = (pre, rest)"
  by (induction pre) (auto simp: split_colon_def)

lemma decode_somalia_olc_prefixed:
  "CHR '':'' \<notin> set pre \<Longrightarrow>
   decode_somalia_olc lib (pre @ CHR '':'' # rest) =
     (case decode_olc lib rest of
        Inl e \<Rightarrow> Inl e
      | Inr result \<Rightarrow> Inr (result\<lparr>region_code := Some pre\<rparr>))"
  by (simp add: decode_somalia_olc_def split_colon_append)

lemma decode_somalia_olc_plain:
  "CHR '':'' \<notin> set c \<Longrightarrow> decode_somalia_olc lib c = decode_olc lib c"
  by (simp add: decode_somalia_olc_def)

lemma first_box_find:
  "first_box tbl lat lon =
     map_option fst
       (find (\<lambda>(key, b). lat_min b \<le> lat \<and> lat \<le> lat_max b \<and> lon_min b \<le> lon \<and> lon \<le> lon_max b) tbl)"
  by (induction tbl lat lon rule: first_box.induct) simp_all

lemma get_region_from_coords_chain:
  "get_region_from_coords lat lon =
     (if 1.8 \<le> lat \<and> lat \<le> 2.2 \<and> 45.0 \<le> lon \<and> lon \<le> 45.6 then Some ''BNR''
      else if 9.0 \<le> lat \<and> lat \<le> 10.0 \<and> 43.0 \<le> lon \<and> lon \<le> 45.0 then Some ''HRS''
      else if 2.0 \<le> lat \<and> lat \<le> 3.0 \<and> 42.0 \<le> lon \<and> lon \<le> 43.0 then Some ''SHB''
      else None)"
  by (simp add: get_region_from_coords_def region_boxes_def)

lemma get_region_truthy:
  "truthy (get_region_from_coords lat lon) = (get_region_from_coords lat lon \<noteq> None)"
  by (simp add: get_region_from_coords_chain truthy_def)

lemma generate_somalia_olc_cases:
  "encode lib lat lon None = Inr base \<Longrightarrow>
   generate_somalia_olc lib lat lon rc =
     (if truthy rc then Inr (the rc @ '':'' @ base)
      else case get_region_from_coords lat lon of
             Some r \<Rightarrow> Inr (''SOM-'' @ r @ '':'' @ base)
           | None \<Rightarrow> Inr base)"
  using get_region_truthy [of lat lon]
  by (auto simp: generate_somalia_olc_def generate_olc_def Let_def split: option.splits)

lemma generate_somalia_olc_error:
  "encode lib lat lon None = Inl e \<Longrightarrow> generate_somalia_olc lib lat lon rc = Inl e"
  by (simp add: generate_somalia_olc_def generate_olc_def)

lemma generate_somalia_olc_fails:
  "(generate_somalia_olc lib lat lon rc = Inl e) = (encode lib lat lon None = Inl e)"
proof (cases "encode lib lat lon None")
  case (Inl x)
  then show ?thesis by (simp add: generate_somalia_olc_error)
next
  case (Inr base)
  then show ?thesis
    by (simp add: generate_somalia_olc_cases split: option.splits)
qed

lemma count_colons:
  assumes "1 < count_list c x"
  shows "\<exists>pre rest. c = pre @ x # rest \<and> x \<notin> set pre \<and> x \<in> set rest"
proof -
  have "x \<in> set c" using assms by (metis count_list_0_iff not_one_less_zero)
  then obtain pre rest where c: "c = pre @ x # rest" "x \<notin> set pre"
    by (meson split_list_first)
  have "count_list pre x = 0" using c(2) by (simp add: count_list_0_iff)
  then have pos: "0 < count_list rest x" using assms c(1) by simp
  have "x \<in> set rest"
  proof (rule ccontr)
    assume "x \<notin> set rest"
    then have "count_list rest x = 0" by (simp add: count_list_0_iff)
    with pos show False by simp
  qed
  with c show ?thesis by blast
qed


section \<open>Properties of the location codes\<close>

lemma grid_encode_mogadishu: "encode grid_olc 2.0469 45.3182 None = Inr ''6H000000+''"
  by (simp add: grid_olc_def grid_encode_def valid_coordinates_def olc_alphabet_def)

lemma digit_value_6H: "digit_value (CHR ''6'') = Some 4" "digit_value (CHR ''H'') = Some 11"
  using digit_value_alphabet [of 4] digit_value_alphabet [of 11]
  by (simp_all add: olc_alphabet_def)

lemma grid_decode_6H: "decode grid_olc ''6H000000+'' = Inr (grid_cell 4 11)"
  by (simp add: grid_olc_def grid_decode_def digit_value_6H)

lemma clip_encode_91_0: "encode clip_olc 91 0 None = Inr ''CF000000+''"
  by (simp add: clip_olc_def clip_encode_def olc_alphabet_def Let_def)

lemma locate_91_0: "get_region_from_coords 91 0 = None"
  by (simp add: get_region_from_coords_chain)

text \<open>
  C2, as the code has it. Encoding and composing make no range check of their own:
  \<open>generate_olc\<close> returns what the codec's \<open>encode\<close> returns, and composing fails
  exactly when \<open>encode\<close> fails, with its error. The range is enforced at the
  endpoint: for a latitude outside [-90, 90] or a longitude outside [-180, 180] the
  declared bounds of \<open>generate_location_code\<close> reject the request, whatever the codec
  does, and composing is not reached.
\<close>

theorem compose_range_check:
  "generate_olc lib lat lon n = encode lib lat lon (if n = Some 0 then None else n) \<and>
   (generate_somalia_olc lib lat lon rc = Inl e) = (encode lib lat lon None = Inl e) \<and>
   (lat < - 90 \<or> 90 < lat \<or> lon < - 180 \<or> 180 < lon \<longrightarrow>
      generate_location_code lib lat lon = Inl RequestValidationError)"
proof -
  have a: "generate_olc lib lat lon n = encode lib lat lon (if n = Some 0 then None else n)"
    by (simp add: generate_olc_def split: option.splits)
  have b: "(generate_somalia_olc lib lat lon rc = Inl e) = (encode lib lat lon None = Inl e)"
    by (rule generate_somalia_olc_fails)
  have c: "lat < - 90 \<or> 90 < lat \<or> lon < - 180 \<or> 180 < lon \<longrightarrow>
      generate_location_code lib lat lon = Inl RequestValidationError"
    by (auto simp: generate_location_code_def)
  from a b c show ?thesis by (intro conjI)
qed

theorem compose_range_check_witness:
  "(90::real) < 91 \<and>
   generate_location_code clip_olc 91 0 = Inl RequestValidationError \<and>
   generate_olc clip_olc 91 0 None = Inr ''CF000000+''"
proof -
  have h: "(91::real) < - 90 \<or> 90 < (91::real) \<or> (0::real) < - 180 \<or> 180 < (0::real)" by simp
  note t = compose_range_check [of clip_olc 91 0 None None InvalidArgument]
  have "generate_location_code clip_olc 91 0 = Inl RequestValidationError"
    using t h by (elim conjE) (rule mp)
  moreover have "generate_olc clip_olc 91 0 None = Inr ''CF000000+''"
    using conjunct1 [OF t] clip_encode_91_0 by simp
  ultimately show ?thesis by simp
qed

text \<open>
  The claim as written fails with a codec that clips: encoding and composing (91, 0)
  return a code.
\<close>

theorem compose_out_of_range_returns_code:
  "generate_olc clip_olc 91 0 None = Inr ''CF000000+'' \<and>
   generate_somalia_olc clip_olc 91 0 None = Inr ''CF000000+'' \<and>
   generate_olc clip_olc 91 0 None \<noteq> Inl InvalidArgument \<and>
   generate_somalia_olc clip_olc 91 0 None \<noteq> Inl InvalidArgument"
proof -
  have a: "generate_olc clip_olc 91 0 None = Inr ''CF000000+''"
    using clip_encode_91_0 by (simp add: generate_olc_def)
  have b: "generate_somalia_olc clip_olc 91 0 None = Inr ''CF000000+''"
    unfolding generate_somalia_olc_cases [OF clip_encode_91_0] locate_91_0
    by (simp add: truthy_def)
  from a b show ?thesis by simp
qed

text \<open>
  C3. For a latitude in [-90, 90], a longitude in [-180, 180] and a region code that
  is not empty and holds no colon, composing gives the region code, a colon and the
  base code that encoding gives, and parsing that string succeeds: it returns the
  region code it was given, and the cell that decoding the base code gives, whose
  centre lies within its bounds and whose bounds contain the coordinates.
\<close>

theorem compose_parse_round_trip:
  assumes "codec_round_trip lib"
    and "- 90 \<le> lat" "lat \<le> 90" "- 180 \<le> lon" "lon \<le> 180"
    and "rc \<noteq> []" "CHR '':'' \<notin> set rc"
  shows "\<exists>base area r.
           encode lib lat lon None = Inr base \<and> decode lib base = Inr area \<and>
           generate_somalia_olc lib lat lon (Some rc) = Inr (rc @ '':'' @ base) \<and>
           decode_somalia_olc lib (rc @ '':'' @ base) = Inr r \<and>
           region_code r = Some rc \<and> code r = base \<and>
           latitude_center r = latitudeCenter area \<and> longitude_center r = longitudeCenter area \<and>
           latitude_lo r = latitudeLo area \<and> latitude_hi r = latitudeHi area \<and>
           longitude_lo r = longitudeLo area \<and> longitude_hi r = longitudeHi area \<and>
           latitude_lo r \<le> latitude_center r \<and> latitude_center r \<le> latitude_hi r \<and>
           longitude_lo r \<le> longitude_center r \<and> longitude_center r \<le> longitude_hi r \<and>
           latitude_lo r \<le> lat \<and> lat \<le> latitude_hi r \<and>
           longitude_lo r \<le> lon \<and> lon \<le> longitude_hi r"
proof -
  have "valid_coordinates lat lon" using assms(2-5) by (simp add: valid_coordinates_def)
  then obtain base area where b: "encode lib lat lon None = Inr base" "decode lib base = Inr area"
    and cell: "latitudeLo area \<le> lat" "lat \<le> latitudeHi area"
      "longitudeLo area \<le> lon" "lon \<le> longitudeHi area"
      "latitudeLo area \<le> latitudeCenter area" "latitudeCenter area \<le> latitudeHi area"
      "longitudeLo area \<le> longitudeCenter area" "longitudeCenter area \<le> longitudeHi area"
    using assms(1) unfolding codec_round_trip_def by blast
  define r where "r = \<lparr>code = base,
               latitude_center = latitudeCenter area, longitude_center = longitudeCenter area,
               latitude_lo = latitudeLo area, longitude_lo = longitudeLo area,
               latitude_hi = latitudeHi area, longitude_hi = longitudeHi area,
               code_length = codeLength area, region_code = Some rc\<rparr>"
  have g: "generate_somalia_olc lib lat lon (Some rc) = Inr (rc @ '':'' @ base)"
    using assms(6) by (simp add: generate_somalia_olc_cases [OF b(1)] truthy_def)
  have "decode_somalia_olc lib (rc @ CHR '':'' # base) = Inr r"
    using assms(7) b(2) by (simp add: decode_somalia_olc_prefixed decode_olc_def r_def)
  then have d: "decode_somalia_olc lib (rc @ '':'' @ base) = Inr r" by simp
  show ?thesis
    apply (rule exI [of _ base], rule exI [of _ area], rule exI [of _ r])
    using b g d cell by (simp add: r_def)
qed

theorem compose_parse_round_trip_witness:
  "codec_round_trip grid_olc \<and>
   generate_somalia_olc grid_olc 2.0469 45.3182 (Some ''SOM-BNR'') = Inr ''SOM-BNR:6H000000+'' \<and>
   (\<exists>r. decode_somalia_olc grid_olc ''SOM-BNR:6H000000+'' = Inr r \<and>
        region_code r = Some ''SOM-BNR'' \<and> code r = ''6H000000+'' \<and>
        latitude_lo r \<le> 2.0469 \<and> 2.0469 \<le> latitude_hi r \<and>
        longitude_lo r \<le> 45.3182 \<and> 45.3182 \<le> longitude_hi r)"
proof -
  have h: "- 90 \<le> (2.0469::real)" "(2.0469::real) \<le> 90" "- 180 \<le> (45.3182::real)"
    "(45.3182::real) \<le> 180" "''SOM-BNR'' \<noteq> []" "CHR '':'' \<notin> set ''SOM-BNR''"
    by simp_all
  obtain base area r where
    e: "encode grid_olc 2.0469 45.3182 None = Inr base"
    and g: "generate_somalia_olc grid_olc 2.0469 45.3182 (Some ''SOM-BNR'') = Inr (''SOM-BNR'' @ '':'' @ base)"
    and d: "decode_somalia_olc grid_olc (''SOM-BNR'' @ '':'' @ base) = Inr r"
    and r: "region_code r = Some ''SOM-BNR''" "code r = base"
      "latitude_lo r \<le> 2.0469" "2.0469 \<le> latitude_hi r"
      "longitude_lo r \<le> 45.3182" "45.3182 \<le> longitude_hi r"
    using compose_parse_round_trip [OF grid_round_trip h] by blast
  have base: "base = ''6H000000+''"
    using e unfolding grid_encode_mogadishu by simp
  have "generate_somalia_olc grid_olc 2.0469 45.3182 (Some ''SOM-BNR'') = Inr ''SOM-BNR:6H000000+''"
    using g unfolding base by simp
  moreover have "decode_somalia_olc grid_olc ''SOM-BNR:6H000000+'' = Inr r"
    using d unfolding base by simp
  moreover have "code r = ''6H000000+''" using r(2) base by simp
  ultimately show ?thesis
    using grid_round_trip r(1,3-6) by blast
qed

text \<open>
  C6, as the code has it. With \<open>base\<close> the code that encoding gives: a region
  code that is supplied and not empty is put before the base code with a colon,
  whatever the region locator would say; when no region code is supplied, or an
  empty one, the result is \<open>SOM-\<close>, the locator's code, a colon and the base code
  when the locator yields a code, and the base code alone when it yields none.
\<close>

theorem compose_prefix:
  assumes "encode lib lat lon None = Inr base"
  shows "(rc \<noteq> [] \<longrightarrow> generate_somalia_olc lib lat lon (Some rc) = Inr (rc @ '':'' @ base)) \<and>
         (supplied = None \<or> supplied = Some [] \<longrightarrow>
            generate_somalia_olc lib lat lon supplied =
              (case get_region_from_coords lat lon of
                 Some r \<Rightarrow> Inr (''SOM-'' @ r @ '':'' @ base)
               | None \<Rightarrow> Inr base))"
  by (auto simp: generate_somalia_olc_cases [OF assms] truthy_def)

theorem compose_prefix_witness:
  "encode grid_olc 2.0469 45.3182 None = Inr ''6H000000+'' \<and>
   generate_somalia_olc grid_olc 2.0469 45.3182 (Some ''SOM-XYZ'') = Inr ''SOM-XYZ:6H000000+'' \<and>
   generate_somalia_olc grid_olc 2.0469 45.3182 None = Inr ''SOM-BNR:6H000000+'' \<and>
   get_region_from_coords 2.0469 45.3182 = Some ''BNR''"
proof -
  have l: "get_region_from_coords 2.0469 45.3182 = Some ''BNR''"
    by (simp add: get_region_from_coords_chain)
  show ?thesis
    using compose_prefix [OF grid_encode_mogadishu, of "''SOM-XYZ''" None] grid_encode_mogadishu
    unfolding l by simp
qed

text \<open>
  The claim as written fails for a region code that is supplied but empty: the
  locator is consulted and its prefix is used, not the supplied one.
\<close>

theorem compose_empty_region_code:
  "encode grid_olc 2.0469 45.3182 None = Inr ''6H000000+'' \<and>
   generate_somalia_olc grid_olc 2.0469 45.3182 (Some []) = Inr ''SOM-BNR:6H000000+'' \<and>
   generate_somalia_olc grid_olc 2.0469 45.3182 (Some []) \<noteq> Inr ([] @ '':'' @ ''6H000000+'')"
proof -
  have l: "get_region_from_coords 2.0469 45.3182 = Some ''BNR''"
    by (simp add: get_region_from_coords_chain)
  have "generate_somalia_olc grid_olc 2.0469 45.3182 (Some []) = Inr ''SOM-BNR:6H000000+''"
    unfolding generate_somalia_olc_cases [OF grid_encode_mogadishu] l
    by (simp add: truthy_def)
  then show ?thesis using grid_encode_mogadishu by simp
qed

text \<open>
  C7. Parsing fails only with \<open>InvalidCode\<close>. A string without a colon is decoded
  whole, so parsing it fails exactly when decoding it fails, and a string that the
  codec decodes is parsed to that cell with no region code. A string with exactly
  one colon fails exactly when the part after the colon fails to decode; when that
  part decodes, parsing succeeds and the region code is the part before the colon.
  A string with more than one colon fails.
\<close>

theorem parse_failure:
  assumes "decode_rejects_malformed lib"
  shows "(\<forall>e. decode_somalia_olc lib c = Inl e \<longrightarrow> e = InvalidCode) \<and>
         (CHR '':'' \<notin> set c \<longrightarrow>
            decode_somalia_olc lib c = decode_olc lib c \<and>
            (decode_somalia_olc lib c = Inl InvalidCode) = (decode lib c = Inl InvalidCode)) \<and>
         (\<forall>area. decode lib c = Inr area \<longrightarrow>
            decode_somalia_olc lib c =
              Inr \<lparr>code = c,
                   latitude_center = latitudeCenter area, longitude_center = longitudeCenter area,
                   latitude_lo = latitudeLo area, longitude_lo = longitudeLo area,
                   latitude_hi = latitudeHi area, longitude_hi = longitudeHi area,
                   code_length = codeLength area, region_code = None\<rparr>) \<and>
         (\<forall>pre rest. c = pre @ '':'' @ rest \<and> CHR '':'' \<notin> set pre \<and> CHR '':'' \<notin> set rest \<longrightarrow>
            (decode_somalia_olc lib c = Inl InvalidCode) = (decode lib rest = Inl InvalidCode) \<and>
            (\<forall>area. decode lib rest = Inr area \<longrightarrow>
               decode_somalia_olc lib c =
                 Inr \<lparr>code = rest,
                      latitude_center = latitudeCenter area, longitude_center = longitudeCenter area,
                      latitude_lo = latitudeLo area, longitude_lo = longitudeLo area,
                      latitude_hi = latitudeHi area, longitude_hi = longitudeHi area,
                      code_length = codeLength area, region_code = Some pre\<rparr>)) \<and>
         (1 < count_list c (CHR '':'') \<longrightarrow> decode_somalia_olc lib c = Inl InvalidCode)"
proof -
  have colon: "\<And>s. CHR '':'' \<in> set s \<Longrightarrow> decode lib s = Inl InvalidCode"
    and kind: "\<And>s e. decode lib s = Inl e \<Longrightarrow> e = InvalidCode"
    using assms unfolding decode_rejects_malformed_def by blast+
  have olc_kind: "\<And>s e. decode_olc lib s = Inl e \<Longrightarrow> e = InvalidCode"
    using kind by (auto simp: decode_olc_def split: sum.splits)
  have olc_fail: "\<And>s. (decode_olc lib s = Inl InvalidCode) = (decode lib s = Inl InvalidCode)"
    by (auto simp: decode_olc_def split: sum.splits)
  have a: "\<forall>e. decode_somalia_olc lib c = Inl e \<longrightarrow> e = InvalidCode"
  proof (intro allI impI)
    fix e assume f: "decode_somalia_olc lib c = Inl e"
    show "e = InvalidCode"
    proof (cases "CHR '':'' \<in> set c")
      case False
      then show ?thesis using f olc_kind by (simp add: decode_somalia_olc_plain)
    next
      case True
      then obtain pre rest where c: "c = pre @ CHR '':'' # rest" "CHR '':'' \<notin> set pre"
        by (meson split_list_first)
      then have "decode_olc lib rest = Inl e"
        using f by (simp add: decode_somalia_olc_prefixed split: sum.splits)
      then show ?thesis by (rule olc_kind)
    qed
  qed
  have b: "CHR '':'' \<notin> set c \<longrightarrow>
            decode_somalia_olc lib c = decode_olc lib c \<and>
            (decode_somalia_olc lib c = Inl InvalidCode) = (decode lib c = Inl InvalidCode)"
    by (simp add: decode_somalia_olc_plain olc_fail)
  have c': "\<forall>area. decode lib c = Inr area \<longrightarrow>
            decode_somalia_olc lib c =
              Inr \<lparr>code = c,
                   latitude_center = latitudeCenter area, longitude_center = longitudeCenter area,
                   latitude_lo = latitudeLo area, longitude_lo = longitudeLo area,
                   latitude_hi = latitudeHi area, longitude_hi = longitudeHi area,
                   code_length = codeLength area, region_code = None\<rparr>"
  proof (intro allI impI)
    fix area assume d: "decode lib c = Inr area"
    then have "CHR '':'' \<notin> set c" using colon by fastforce
    then show "decode_somalia_olc lib c =
              Inr \<lparr>code = c,
                   latitude_center = latitudeCenter area, longitude_center = longitudeCenter area,
                   latitude_lo = latitudeLo area, longitude_lo = longitudeLo area,
                   latitude_hi = latitudeHi area, longitude_hi = longitudeHi area,
                   code_length = codeLength area, region_code = None\<rparr>"
      using d by (simp add: decode_somalia_olc_plain decode_olc_def)
  qed
  have d: "\<forall>pre rest. c = pre @ '':'' @ rest \<and> CHR '':'' \<notin> set pre \<and> CHR '':'' \<notin> set rest \<longrightarrow>
            (decode_somalia_olc lib c = Inl InvalidCode) = (decode lib rest = Inl InvalidCode) \<and>
            (\<forall>area. decode lib rest = Inr area \<longrightarrow>
               decode_somalia_olc lib c =
                 Inr \<lparr>code = rest,
                      latitude_center = latitudeCenter area, longitude_center = longitudeCenter area,
                      latitude_lo = latitudeLo area, longitude_lo = longitudeLo area,
                      latitude_hi = latitudeHi area, longitude_hi = longitudeHi area,
                      code_length = codeLength area, region_code = Some pre\<rparr>)"
  proof (intro allI impI)
    fix pre rest
    assume h: "c = pre @ '':'' @ rest \<and> CHR '':'' \<notin> set pre \<and> CHR '':'' \<notin> set rest"
    then have eq: "decode_somalia_olc lib c =
        (case decode_olc lib rest of
           Inl e \<Rightarrow> Inl e
         | Inr result \<Rightarrow> Inr (result\<lparr>region_code := Some pre\<rparr>))"
      by (simp add: decode_somalia_olc_prefixed)
    have f: "(decode_somalia_olc lib c = Inl InvalidCode) = (decode lib rest = Inl InvalidCode)"
      unfolding eq using olc_fail [of rest] by (cases "decode_olc lib rest") simp_all
    have g: "\<forall>area. decode lib rest = Inr area \<longrightarrow>
               decode_somalia_olc lib c =
                 Inr \<lparr>code = rest,
                      latitude_center = latitudeCenter area, longitude_center = longitudeCenter area,
                      latitude_lo = latitudeLo area, longitude_lo = longitudeLo area,
                      latitude_hi = latitudeHi area, longitude_hi = longitudeHi area,
                      code_length = codeLength area, region_code = Some pre\<rparr>"
      unfolding eq by (simp add: decode_olc_def)
    from f g show "(decode_somalia_olc lib c = Inl InvalidCode) = (decode lib rest = Inl InvalidCode) \<and>
            (\<forall>area. decode lib rest = Inr area \<longrightarrow>
               decode_somalia_olc lib c =
                 Inr \<lparr>code = rest,
                      latitude_center = latitudeCenter area, longitude_center = longitudeCenter area,
                      latitude_lo = latitudeLo area, longitude_lo = longitudeLo area,
                      latitude_hi = latitudeHi area, longitude_hi = longitudeHi area,
                      code_length = codeLength area, region_code = Some pre\<rparr>)"
      by (rule conjI)
  qed
  have e: "1 < count_list c (CHR '':'') \<longrightarrow> decode_somalia_olc lib c = Inl InvalidCode"
  proof
    assume h: "1 < count_list c (CHR '':'')"
    from count_colons [OF h] obtain pre rest where c: "c = pre @ CHR '':'' # rest"
      "CHR '':'' \<notin> set pre" "CHR '':'' \<in> set rest"
      by (elim exE conjE)
    have "decode lib rest = Inl InvalidCode" using c(3) by (rule colon)
    then show "decode_somalia_olc lib c = Inl InvalidCode"
      using c(1,2) by (simp add: decode_somalia_olc_prefixed decode_olc_def)
  qed
  from a b c' d e show ?thesis by (intro conjI)
qed

lemma grid_decode_plain:
  "decode_olc grid_olc ''6H000000+'' =
     Inr \<lparr>code = ''6H000000+'', latitude_center = 0, longitude_center = 50,
          latitude_lo = - 10, longitude_lo = 40, latitude_hi = 10, longitude_hi = 60,
          code_length = 2, region_code = None\<rparr>"
  by (simp add: decode_olc_def grid_decode_6H grid_cell_def)

theorem parse_failure_witness:
  "decode_rejects_malformed grid_olc \<and>
   decode_somalia_olc grid_olc ''A:B:6H000000+'' = Inl InvalidCode \<and>
   decode_somalia_olc grid_olc ''SOM-BNR:6H000000+'' =
     Inr \<lparr>code = ''6H000000+'', latitude_center = 0, longitude_center = 50,
          latitude_lo = - 10, longitude_lo = 40, latitude_hi = 10, longitude_hi = 60,
          code_length = 2, region_code = Some ''SOM-BNR''\<rparr> \<and>
   decode_somalia_olc grid_olc ''6H000000+'' =
     Inr \<lparr>code = ''6H000000+'', latitude_center = 0, longitude_center = 50,
          latitude_lo = - 10, longitude_lo = 40, latitude_hi = 10, longitude_hi = 60,
          code_length = 2, region_code = None\<rparr>"
proof -
  note t = parse_failure [OF grid_rejects_malformed]
  have "1 < count_list ''A:B:6H000000+'' (CHR '':'')" by simp
  then have a: "decode_somalia_olc grid_olc ''A:B:6H000000+'' = Inl InvalidCode"
    using t [of "''A:B:6H000000+''"] by (elim conjE) (rule mp)
  have "''SOM-BNR:6H000000+'' = ''SOM-BNR'' @ '':'' @ ''6H000000+'' \<and>
        CHR '':'' \<notin> set ''SOM-BNR'' \<and> CHR '':'' \<notin> set ''6H000000+''" by simp
  then have "\<forall>area. decode grid_olc ''6H000000+'' = Inr area \<longrightarrow>
               decode_somalia_olc grid_olc ''SOM-BNR:6H000000+'' =
                 Inr \<lparr>code = ''6H000000+'',
                      latitude_center = latitudeCenter area, longitude_center = longitudeCenter area,
                      latitude_lo = latitudeLo area, longitude_lo = longitudeLo area,
                      latitude_hi = latitudeHi area, longitude_hi = longitudeHi area,
                      code_length = codeLength area, region_code = Some ''SOM-BNR''\<rparr>"
    using t [of "''SOM-BNR:6H000000+''"] by (elim conjE allE [of _ "''SOM-BNR''"] allE [of _ "''6H000000+''"]) simp
  then have b: "decode_somalia_olc grid_olc ''SOM-BNR:6H000000+'' =
     Inr \<lparr>code = ''6H000000+'', latitude_center = 0, longitude_center = 50,
          latitude_lo = - 10, longitude_lo = 40, latitude_hi = 10, longitude_hi = 60,
          code_length = 2, region_code = Some ''SOM-BNR''\<rparr>"
    using grid_decode_6H by (simp add: grid_cell_def)
  have c: "decode_somalia_olc grid_olc ''6H000000+'' =
     Inr \<lparr>code = ''6H000000+'', latitude_center = 0, longitude_center = 50,
          latitude_lo = - 10, longitude_lo = 40, latitude_hi = 10, longitude_hi = 60,
          code_length = 2, region_code = None\<rparr>"
    using t [of "''6H000000+''"] grid_decode_plain by simp
  from grid_rejects_malformed a b c show ?thesis by (intro conjI)
qed

text \<open>
  C8. The region locator returns the code of the first entry of its table, in the
  order BNR, HRS, SHB, whose box contains the point, the bounds included, and
  \<open>None\<close> when no box contains it. The point (2.0469, 45.3182) lies in the box of
  BNR, so composing it with no region code gives the base code prefixed \<open>SOM-BNR:\<close>.
\<close>

theorem locate_first_box:
  "get_region_from_coords lat lon =
     map_option fst
       (find (\<lambda>(key, b). lat_min b \<le> lat \<and> lat \<le> lat_max b \<and> lon_min b \<le> lon \<and> lon \<le> lon_max b)
          region_boxes) \<and>
   map fst region_boxes = [''BNR'', ''HRS'', ''SHB''] \<and>
   get_region_from_coords lat lon =
     (if 1.8 \<le> lat \<and> lat \<le> 2.2 \<and> 45.0 \<le> lon \<and> lon \<le> 45.6 then Some ''BNR''
      else if 9.0 \<le> lat \<and> lat \<le> 10.0 \<and> 43.0 \<le> lon \<and> lon \<le> 45.0 then Some ''HRS''
      else if 2.0 \<le> lat \<and> lat \<le> 3.0 \<and> 42.0 \<le> lon \<and> lon \<le> 43.0 then Some ''SHB''
      else None) \<and>
   get_region_from_coords 2.0469 45.3182 = Some ''BNR'' \<and>
   (encode lib 2.0469 45.3182 None = Inr base \<longrightarrow>
      generate_somalia_olc lib 2.0469 45.3182 None = Inr (''SOM-BNR:'' @ base))"
proof -
  have a: "get_region_from_coords lat lon =
     map_option fst
       (find (\<lambda>(key, b). lat_min b \<le> lat \<and> lat \<le> lat_max b \<and> lon_min b \<le> lon \<and> lon \<le> lon_max b)
          region_boxes)"
    unfolding get_region_from_coords_def by (rule first_box_find)
  have b: "map fst region_boxes = [''BNR'', ''HRS'', ''SHB'']"
    by (simp add: region_boxes_def)
  have l: "get_region_from_coords 2.0469 45.3182 = Some ''BNR''"
    by (simp add: get_region_from_coords_chain)
  have c: "encode lib 2.0469 45.3182 None = Inr base \<longrightarrow>
      generate_somalia_olc lib 2.0469 45.3182 None = Inr (''SOM-BNR:'' @ base)"
  proof
    assume e: "encode lib 2.0469 45.3182 None = Inr base"
    show "generate_somalia_olc lib 2.0469 45.3182 None = Inr (''SOM-BNR:'' @ base)"
      unfolding generate_somalia_olc_cases [OF e] l by (simp add: truthy_def)
  qed
  from a b get_region_from_coords_chain [of lat lon] l c show ?thesis by (intro conjI)
qed

theorem locate_first_box_witness:
  "encode grid_olc 2.0469 45.3182 None = Inr ''6H000000+'' \<and>
   generate_somalia_olc grid_olc 2.0469 45.3182 None = Inr ''SOM-BNR:6H000000+'' \<and>
   get_region_from_coords 1.8 45.0 = Some ''BNR'' \<and>
   get_region_from_coords 2.2 45.6 = Some ''BNR'' \<and>
   get_region_from_coords 9.5 45.0 = Some ''HRS'' \<and>
   get_region_from_coords 2.0 42.5 = Some ''SHB'' \<and>
   get_region_from_coords 0 0 = None"
proof -
  note chain = conjunct1 [OF conjunct2 [OF conjunct2 [OF locate_first_box]]]
  have "generate_somalia_olc grid_olc 2.0469 45.3182 None = Inr (''SOM-BNR:'' @ ''6H000000+'')"
    using locate_first_box [of 0 0 grid_olc "''6H000000+''"] grid_encode_mogadishu
    by (elim conjE) (rule mp)
  moreover have "get_region_from_coords 1.8 45.0 = Some ''BNR''"
    unfolding chain [of "1.8" "45.0"] by simp
  moreover have "get_region_from_coords 2.2 45.6 = Some ''BNR''"
    unfolding chain [of "2.2" "45.6"] by simp
  moreover have "get_region_from_coords 9.5 45.0 = Some ''HRS''"
    unfolding chain [of "9.5" "45.0"] by simp
  moreover have "get_region_from_coords 2.0 42.5 = Some ''SHB''"
    unfolding chain [of "2.0" "42.5"] by simp
  moreover have "get_region_from_coords 0 0 = None"
    unfolding chain [of 0 0] by simp
  ultimately show ?thesis using grid_encode_mogadishu by simp
qed

text \<open>
  C10, as the code has it. Parsing keeps the region prefix as it is written, whatever
  its shape: for a string with a colon whose text after the first colon decodes, the
  region code returned is exactly the text before the first colon. When that text is
  empty the region code is the empty string, not \<open>None\<close>. When the text after the
  colon does not decode, as for \<open>:8FJ53PM+\<close> with a codec that rejects \<open>8FJ53PM+\<close>,
  parsing fails with the codec's error.
\<close>

theorem parse_keeps_prefix:
  assumes "CHR '':'' \<notin> set pre" and "decode lib rest = Inr area"
  shows "decode_somalia_olc lib (pre @ '':'' @ rest) =
           Inr \<lparr>code = rest,
                latitude_center = latitudeCenter area, longitude_center = longitudeCenter area,
                latitude_lo = latitudeLo area, longitude_lo = longitudeLo area,
                latitude_hi = latitudeHi area, longitude_hi = longitudeHi area,
                code_length = codeLength area, region_code = Some pre\<rparr> \<and>
         decode_somalia_olc lib ('':'' @ rest) =
           Inr \<lparr>code = rest,
                latitude_center = latitudeCenter area, longitude_center = longitudeCenter area,
                latitude_lo = latitudeLo area, longitude_lo = longitudeLo area,
                latitude_hi = latitudeHi area, longitude_hi = longitudeHi area,
                code_length = codeLength area, region_code = Some []\<rparr> \<and>
         (\<forall>e. decode lib ''8FJ53PM+'' = Inl e \<longrightarrow> decode_somalia_olc lib '':8FJ53PM+'' = Inl e)"
proof -
  have p: "\<And>s. decode_somalia_olc lib ('':'' @ s) =
     (case decode_olc lib s of
        Inl e \<Rightarrow> Inl e
      | Inr result \<Rightarrow> Inr (result\<lparr>region_code := Some []\<rparr>))"
    using decode_somalia_olc_prefixed [of "[]" lib] by simp
  have a: "decode_somalia_olc lib (pre @ '':'' @ rest) =
           Inr \<lparr>code = rest,
                latitude_center = latitudeCenter area, longitude_center = longitudeCenter area,
                latitude_lo = latitudeLo area, longitude_lo = longitudeLo area,
                latitude_hi = latitudeHi area, longitude_hi = longitudeHi area,
                code_length = codeLength area, region_code = Some pre\<rparr>"
    using assms by (simp add: decode_somalia_olc_prefixed decode_olc_def)
  have b: "decode_somalia_olc lib ('':'' @ rest) =
           Inr \<lparr>code = rest,
                latitude_center = latitudeCenter area, longitude_center = longitudeCenter area,
                latitude_lo = latitudeLo area, longitude_lo = longitudeLo area,
                latitude_hi = latitudeHi area, longitude_hi = longitudeHi area,
                code_length = codeLength area, region_code = Some []\<rparr>"
    unfolding p using assms(2) by (simp add: decode_olc_def)
  have c: "\<forall>e. decode lib ''8FJ53PM+'' = Inl e \<longrightarrow> decode_somalia_olc lib '':8FJ53PM+'' = Inl e"
    using p [of "''8FJ53PM+''"] by (simp add: decode_olc_def)
  from a b c show ?thesis by (intro conjI)
qed

theorem parse_keeps_prefix_witness:
  "decode grid_olc ''6H000000+'' = Inr (grid_cell 4 11) \<and>
   decode_somalia_olc grid_olc '':6H000000+'' =
     Inr \<lparr>code = ''6H000000+'', latitude_center = 0, longitude_center = 50,
          latitude_lo = - 10, longitude_lo = 40, latitude_hi = 10, longitude_hi = 60,
          code_length = 2, region_code = Some []\<rparr> \<and>
   decode_somalia_olc grid_olc ''Banadir:6H000000+'' =
     Inr \<lparr>code = ''6H000000+'', latitude_center = 0, longitude_center = 50,
          latitude_lo = - 10, longitude_lo = 40, latitude_hi = 10, longitude_hi = 60,
          code_length = 2, region_code = Some ''Banadir''\<rparr>"
proof -
  have e: "CHR '':'' \<notin> set []" and b: "CHR '':'' \<notin> set ''Banadir''" by simp_all
  show ?thesis
    using conjunct1 [OF parse_keeps_prefix [OF e grid_decode_6H]]
      conjunct1 [OF parse_keeps_prefix [OF b grid_decode_6H]] grid_decode_6H
    by (simp add: grid_cell_def)
qed

text \<open>
  The example of the claim as written: \<open>8FJ53PM+\<close> has seven characters before its
  separator, where a full code has eight; it does not decode, and parsing
  \<open>:8FJ53PM+\<close> fails instead of returning an empty region code.
\<close>

theorem parse_example_not_decoded:
  "decode grid_olc ''8FJ53PM+'' = Inl InvalidCode \<and>
   decode_somalia_olc grid_olc '':8FJ53PM+'' = Inl InvalidCode"
proof -
  have d: "decode grid_olc ''8FJ53PM+'' = Inl InvalidCode"
    by (simp add: grid_olc_def grid_decode_def)
  have p: "decode_somalia_olc grid_olc '':8FJ53PM+'' =
     (case decode_olc grid_olc ''8FJ53PM+'' of
        Inl e \<Rightarrow> Inl e
      | Inr result \<Rightarrow> Inr (result\<lparr>region_code := Some []\<rparr>))"
    using decode_somalia_olc_prefixed [of "[]" grid_olc "''8FJ53PM+''"] by simp
  have "decode_somalia_olc grid_olc '':8FJ53PM+'' = Inl InvalidCode"
    unfolding p using d by (simp add: decode_olc_def)
  then show ?thesis using d by simp
qed

end
